theory Spec2Isabelle
  imports Complex_Main "HOL-Library.Word" "HOL-Library.Sublist" "HOL-Library.AList"
begin

section \<open>Values, strings and exceptions\<close>

text \<open>
  The agent core is dynamically typed Python. Every value that crosses a boundary (the
  model's parsed answer, a plan step, the persisted memory document) is a JSON value as
  \<open>json.loads\<close> produces it: \<open>None\<close>, a bool, an unbounded int, a float (kept as its
  IEEE-754 bit pattern), a str, a list or a dict. A dict is an association list in
  insertion order; lookup is \<open>map_of\<close>, item assignment is \<open>AList.update\<close> (in place for
  a present key, appended for a new one) and \<open>del\<close> is \<open>AList.delete\<close>.
  A Python \<open>str\<close> is modelled as a \<open>string\<close>, one \<open>char\<close> per code point (code
  points below 256).
\<close>

datatype json =
    JNull
  | JBool bool
  | JInt int
  | JFloat "64 word"
  | JStr string
  | JArr "json list"
  | JObj "(string \<times> json) list"

text \<open>
  Exceptions are values. Only instances of Python's \<open>Exception\<close> are modelled (the
  handlers of the source are all \<open>except Exception\<close>): a class and the text \<open>str(e)\<close>.
\<close>

datatype exn_class =
    ValueError
  | JSONDecodeError
  | TypeError
  | KeyError
  | AttributeError
  | OtherError string

datatype exn = Exn exn_class string

fun exn_str :: "exn \<Rightarrow> string" where
  "exn_str (Exn c m) = m"

text \<open>Truth value testing (\<open>not x\<close>, \<open>if x\<close>) of a JSON value.\<close>

fun truthy :: "json \<Rightarrow> bool" where
  "truthy JNull = False"
| "truthy (JBool b) = b"
| "truthy (JInt n) = (n \<noteq> 0)"
| "truthy (JFloat w) = (w \<noteq> 0 \<and> w \<noteq> 0x8000000000000000)"
| "truthy (JStr s) = (s \<noteq> [])"
| "truthy (JArr xs) = (xs \<noteq> [])"
| "truthy (JObj kv) = (kv \<noteq> [])"

text \<open>\<open>d.get(k, default)\<close> on a dict.\<close>

definition dict_get :: "(string \<times> json) list \<Rightarrow> string \<Rightarrow> json \<Rightarrow> json" where
  "dict_get kv k dflt = (case map_of kv k of None \<Rightarrow> dflt | Some v \<Rightarrow> v)"

text \<open>
  \<open>str(v)\<close> as used by f-strings: a str is itself; the text of every other value is
  Python's \<open>repr\<close>, taken as a parameter.
\<close>

definition format_value :: "(json \<Rightarrow> string) \<Rightarrow> json \<Rightarrow> string" where
  "format_value py_repr v = (case v of JStr s \<Rightarrow> s | _ \<Rightarrow> py_repr v)"

text \<open>A text between single quotes, as in \<open>f"'{name}'"\<close>.\<close>

definition quoted :: "string \<Rightarrow> string" where
  "quoted s = [CHR 0x27] @ s @ [CHR 0x27]"

text \<open>\<open>sep.join(parts)\<close>.\<close>

fun join :: "string \<Rightarrow> string list \<Rightarrow> string" where
  "join sep [] = []"
| "join sep [x] = x"
| "join sep (x # y # ys) = x @ sep @ join sep (y # ys)"

text \<open>\<open>s.lower()\<close> on code points below 256: A-Z and the Latin-1 capitals move by 32.\<close>

definition lower_char :: "char \<Rightarrow> char" where
  "lower_char c =
     (let n = (of_char c :: nat)
      in if (65 \<le> n \<and> n \<le> 90) \<or> (192 \<le> n \<and> n \<le> 222 \<and> n \<noteq> 215)
         then char_of (n + 32) else c)"

definition lower :: "string \<Rightarrow> string" where
  "lower s = map lower_char s"

text \<open>\<open>s.strip()\<close>: the characters with \<open>isspace()\<close> among code points below 256.\<close>

definition is_space :: "char \<Rightarrow> bool" where
  "is_space c =
     (let n = (of_char c :: nat)
      in (9 \<le> n \<and> n \<le> 13) \<or> (28 \<le> n \<and> n \<le> 32) \<or> n = 133 \<or> n = 160)"

definition strip :: "string \<Rightarrow> string" where
  "strip s = rev (dropWhile is_space (rev (dropWhile is_space s)))"

text \<open>\<open>s.find(c)\<close> and \<open>s.rfind(c)\<close> for a single character: an index, or -1.\<close>

fun find_from :: "char \<Rightarrow> string \<Rightarrow> nat \<Rightarrow> int" where
  "find_from c [] i = - 1"
| "find_from c (x # xs) i = (if x = c then int i else find_from c xs (Suc i))"

definition find :: "string \<Rightarrow> char \<Rightarrow> int" where
  "find s c = find_from c s 0"

definition rfind :: "string \<Rightarrow> char \<Rightarrow> int" where
  "rfind s c =
     (let k = find_from c (rev s) 0
      in if k = - 1 then - 1 else int (length s) - 1 - k)"

text \<open>\<open>s[lo:hi]\<close> for \<open>0 \<le> lo\<close> and \<open>0 \<le> hi\<close>.\<close>

definition slice :: "'a list \<Rightarrow> int \<Rightarrow> int \<Rightarrow> 'a list" where
  "slice s lo hi = drop (nat lo) (take (nat hi) s)"

text \<open>
  \<open>xs[k:]\<close> for any int \<open>k\<close>: a negative start counts from the end and is clipped at
  the front, a non-negative one is clipped at the end.
\<close>

definition slice_from :: "int \<Rightarrow> 'a list \<Rightarrow> 'a list" where
  "slice_from k xs =
     (let n = int (length xs);
          start = (if k < 0 then max 0 (n + k) else min k n)
      in drop (nat start) xs)"

section \<open>Skill registry (skills/__init__.py)\<close>

text \<open>
  A capability is called as \<open>skill_func(**params)\<close> and its result is read through
  \<open>str\<close>. The skills themselves are outside the core: a skill is a function from the
  step's \<open>params\<close> value and the state of the outside world to the new world and either
  the exception it raised or \<open>str(result)\<close>. The registry is the dict from names to
  skills, \<open>Dict[str, Callable]\<close>: every value of it is a callable.
\<close>

type_synonym 'w skill = "json \<Rightarrow> 'w \<Rightarrow> (exn + string) \<times> 'w"

type_synonym 'w registry = "(string \<times> 'w skill) list"

text \<open>What a Python name bound by \<open>skill_func = registry.resolve(action)\<close> can hold.\<close>

datatype 'f pyref = PyNone | Callable 'f

definition register :: "string \<Rightarrow> 'f \<Rightarrow> (string \<times> 'f) list \<Rightarrow> (string \<times> 'f) list" where
  "register name func reg = AList.update name func reg"

text \<open>
  \<open>resolve\<close>: \<open>name not in self.registry\<close> raises TypeError for an unhashable name (a
  list or a dict) and ValueError for an absent one; a key of the registry is a str, so
  no other JSON value is present.
\<close>

definition resolve :: "(string \<times> 'f) list \<Rightarrow> (json \<Rightarrow> string) \<Rightarrow> json \<Rightarrow> exn + 'f pyref" where
  "resolve reg py_repr name =
     (case name of
        JArr xs \<Rightarrow> Inl (Exn TypeError (''unhashable type: '' @ quoted ''list''))
      | JObj kv \<Rightarrow> Inl (Exn TypeError (''unhashable type: '' @ quoted ''dict''))
      | JStr s \<Rightarrow>
          (case map_of reg s of
             None \<Rightarrow> Inl (Exn ValueError (''Skill '' @ quoted s @ '' not found in registry''))
           | Some f \<Rightarrow> Inr (Callable f))
      | _ \<Rightarrow> Inl (Exn ValueError
                 (''Skill '' @ quoted (format_value py_repr name) @ '' not found in registry'')))"

definition list_skills :: "(string \<times> 'f) list \<Rightarrow> string list" where
  "list_skills reg = map fst reg"

section \<open>The environment of a run\<close>

text \<open>
  What the core takes from outside: the registry of skills, the language model
  (\<open>get_llm().generate(prompt, max_tokens=1024, temperature=0.3)\<close>, which may raise),
  \<open>json.loads\<close> (which raises JSONDecodeError on invalid text), Python's \<open>repr\<close> and the
  clock behind \<open>datetime.now().isoformat()\<close>.
\<close>

record 'w env =
  registry :: "'w registry"
  llm_generate :: "string \<Rightarrow> 'w \<Rightarrow> (exn + string) \<times> 'w"
  json_loads :: "string \<Rightarrow> exn + json"
  py_repr :: "json \<Rightarrow> string"
  clock :: "'w \<Rightarrow> string"

section \<open>Model call (core/llm_interface.py)\<close>

text \<open>\<open>call_model\<close> catches every exception of the model and answers with a fixed text.\<close>

definition call_model :: "'w env \<Rightarrow> string \<Rightarrow> 'w \<Rightarrow> string \<times> 'w" where
  "call_model env prompt w =
     (case llm_generate env prompt w of
        (Inl e, w') \<Rightarrow> (''Error: Unable to generate response'', w')
      | (Inr response, w') \<Rightarrow> (response, w'))"

section \<open>Planner (core/planner.py)\<close>

definition newline :: string where
  "newline = [CHR 0x0A]"

definition skill_descriptions :: "(string \<times> string) list" where
  "skill_descriptions =
     [(''generate_task_code'', ''Generate code for a specific task or improvement''),
      (''trace_variable_flow'', ''Trace how variables flow through code''),
      (''scan_codebase'', ''Scan and analyze the codebase structure''),
      (''analyze_dependencies'', ''Analyze code dependencies and imports'')]"

definition format_skills_description :: "string list \<Rightarrow> string" where
  "format_skills_description skills =
     join newline
       (map (\<lambda>skill.
               ''- '' @ skill @ '': '' @
               (case map_of skill_descriptions skill of
                  None \<Rightarrow> ''No description available''
                | Some desc \<Rightarrow> desc))
            skills)"

definition planner_prompt :: "string \<Rightarrow> string \<Rightarrow> string \<Rightarrow> string" where
  \<open>planner_prompt goal prior_context skills_description =
     join newline
       [''You are Optimus Bot, a coding agent that helps improve and analyze code.'',
        [],
        ''Goal: '' @ goal,
        [],
        ''Prior Context from Memory:'',
        prior_context,
        [],
        ''Available Skills:'',
        skills_description,
        [],
        ''Your task is to create a step-by-step plan to achieve the goal. Return your response as a JSON array of steps.'',
        [],
        ''Each step should have this format:'',
        ''{"action": "skill_name", "params": {"param1": "value1", "param2": "value2"}}'',
        [],
        ''Example response:'',
        ''['',
        ''    {"action": "generate_task_code", "params": {"task": "improve error handling in patch_engine.py"}},'',
        ''    {"action": "trace_variable_flow", "params": {"file": "patch_engine.py", "variable": "patch_result"}}'',
        '']'',
        [],
        ''Important:'',
        ''- Only use skills from the available skills list'',
        ''- Be specific with parameters'',
        ''- Focus on actionable steps'',
        ''- Return valid JSON only'',
        [],
        ''Plan:'']\<close>

text \<open>
  \<open>_parse_plan_response\<close>: the text from the first \<open>[\<close> to the last \<open>]\<close> is handed to
  \<open>json.loads\<close>. A JSONDecodeError becomes a ValueError, any other exception of the
  parser passes unchanged, and a parsed value that is not a list is a ValueError.
\<close>

definition parse_plan_response :: "(string \<Rightarrow> exn + json) \<Rightarrow> string \<Rightarrow> exn + json list" where
  "parse_plan_response loads response0 =
     (let response = strip response0;
          start_idx = find response (CHR ''['');
          end_idx = rfind response (CHR '']'')
      in if start_idx = - 1 \<or> end_idx = - 1
         then Inl (Exn ValueError ''No JSON array found in response'')
         else
           (let json_str = slice response start_idx (end_idx + 1)
            in case loads json_str of
                 Inl (Exn JSONDecodeError m) \<Rightarrow>
                   Inl (Exn ValueError (''Invalid JSON in response: '' @ m))
               | Inl e \<Rightarrow> Inl e
               | Inr (JArr steps) \<Rightarrow> Inr steps
               | Inr _ \<Rightarrow> Inl (Exn ValueError ''Response is not a list'')))"

text \<open>
  \<open>_validate_steps\<close>: the loop over the candidates, with its three \<open>continue\<close>s. A kept
  step gets \<open>step["params"] = {}\<close> when the key is absent or its value is not a dict.
\<close>

fun validate_steps :: "json list \<Rightarrow> string list \<Rightarrow> json list" where
  "validate_steps [] available_skills = []"
| "validate_steps (step # steps) available_skills =
     (case step of
        JObj kv \<Rightarrow>
          (let action = dict_get kv ''action'' JNull
           in if \<not> truthy action then validate_steps steps available_skills
              else if action \<notin> set (map JStr available_skills)
              then validate_steps steps available_skills
              else
                (let kv' =
                   (case map_of kv ''params'' of
                      None \<Rightarrow> AList.update ''params'' (JObj []) kv
                    | Some (JObj ps) \<Rightarrow> kv
                    | Some _ \<Rightarrow> AList.update ''params'' (JObj []) kv)
                 in JObj kv' # validate_steps steps available_skills))
      | _ \<Rightarrow> validate_steps steps available_skills)"

text \<open>\<open>_get_fallback_plan\<close>; \<open>sub in s\<close> on strings is \<open>sublist sub s\<close>.\<close>

definition get_fallback_plan :: "string \<Rightarrow> json list" where
  "get_fallback_plan goal =
     (if sublist ''patch'' (lower goal) \<or> sublist ''improve'' (lower goal)
      then [JObj [(''action'', JStr ''generate_task_code''),
                  (''params'', JObj [(''task'', JStr goal)])],
            JObj [(''action'', JStr ''trace_variable_flow''),
                  (''params'', JObj [(''file'', JStr ''patch_engine.py'')])]]
      else [JObj [(''action'', JStr ''generate_task_code''),
                  (''params'', JObj [(''task'', JStr goal)])]])"

text \<open>
  \<open>plan_steps\<close>. The \<open>try\<close> block is \<open>plan_attempt\<close>: the model call (which does not
  raise, see \<open>call_model\<close>), the parse and the validation. The handler returns the
  fallback plan.
\<close>

definition plan_attempt :: "'w env \<Rightarrow> string \<Rightarrow> string \<Rightarrow> 'w \<Rightarrow> (exn + json list) \<times> 'w" where
  "plan_attempt env goal prior_context w =
     (let available_skills = list_skills (registry env);
          skills_description = format_skills_description available_skills;
          prompt = planner_prompt goal prior_context skills_description;
          (response, w') = call_model env prompt w
      in case parse_plan_response (json_loads env) response of
           Inl e \<Rightarrow> (Inl e, w')
         | Inr steps \<Rightarrow> (Inr (validate_steps steps available_skills), w'))"

definition plan_steps :: "'w env \<Rightarrow> string \<Rightarrow> string \<Rightarrow> 'w \<Rightarrow> json list \<times> 'w" where
  "plan_steps env goal prior_context w =
     (case plan_attempt env goal prior_context w of
        (Inl e, w') \<Rightarrow> (get_fallback_plan goal, w')
      | (Inr validated_steps, w') \<Rightarrow> (validated_steps, w'))"

section \<open>Memory (core/memory.py)\<close>

text \<open>
  \<open>self.data\<close> is whatever \<open>json.load\<close> returned for the persisted document (or \<open>{}\<close>),
  so it is a JSON value; the operations raise where Python does when it is not the dict
  of lists of entries that \<open>store\<close> builds. \<open>_save\<close> catches every exception and does not
  touch \<open>self.data\<close>; it is left out. The message texts of the exceptions that the
  interpreter itself raises on a malformed document are abbreviated.
\<close>

text \<open>\<open>v[key]\<close> for a str key.\<close>

definition subscript :: "json \<Rightarrow> string \<Rightarrow> exn + json" where
  "subscript v key =
     (case v of
        JObj kv \<Rightarrow>
          (case map_of kv key of
             None \<Rightarrow> Inl (Exn KeyError (quoted key))
           | Some x \<Rightarrow> Inr x)
      | JArr xs \<Rightarrow> Inl (Exn TypeError ''list indices must be integers or slices, not str'')
      | JStr s \<Rightarrow> Inl (Exn TypeError ''string indices must be integers'')
      | _ \<Rightarrow> Inl (Exn TypeError ''object is not subscriptable''))"

text \<open>\<open>goal in self.data\<close>: a key of a dict, an element of a list, a substring of a str.\<close>

definition contains_goal :: "string \<Rightarrow> json \<Rightarrow> exn + bool" where
  "contains_goal goal data =
     (case data of
        JObj kv \<Rightarrow> Inr (goal \<in> set (map fst kv))
      | JArr xs \<Rightarrow> Inr (JStr goal \<in> set xs)
      | JStr s \<Rightarrow> Inr (sublist goal s)
      | _ \<Rightarrow> Inl (Exn TypeError ''argument is not iterable''))"

definition mk_entry :: "json \<Rightarrow> string \<Rightarrow> string \<Rightarrow> json" where
  "mk_entry step result timestamp =
     JObj [(''step'', step), (''result'', JStr result), (''timestamp'', JStr timestamp)]"

text \<open>
  \<open>store\<close>, with the timestamp read from the clock by the caller. Where it raises
  nothing has been written: the bucket is created only when the goal is absent, and
  then the append succeeds.
\<close>

definition store :: "string \<Rightarrow> string \<Rightarrow> json \<Rightarrow> string \<Rightarrow> json \<Rightarrow> exn + json" where
  "store timestamp goal step result data =
     (let entry = mk_entry step result timestamp
      in case contains_goal goal data of
           Inl e \<Rightarrow> Inl e
         | Inr present \<Rightarrow>
             (case data of
                JObj kv \<Rightarrow>
                  (let kv1 = (if \<not> present then AList.update goal (JArr []) kv else kv)
                   in case map_of kv1 goal of
                        Some (JArr entries) \<Rightarrow>
                          Inr (JObj (AList.update goal (JArr (entries @ [entry])) kv1))
                      | Some other \<Rightarrow> Inl (Exn AttributeError ''object has no attribute append'')
                      | None \<Rightarrow> Inl (Exn KeyError (quoted goal)))
              | _ \<Rightarrow> Inl (Exn TypeError ''object does not support item assignment'')))"

definition retrieve :: "string \<Rightarrow> json \<Rightarrow> exn + json" where
  "retrieve goal data =
     (case data of
        JObj kv \<Rightarrow> Inr (dict_get kv goal (JArr []))
      | _ \<Rightarrow> Inl (Exn AttributeError ''object has no attribute get''))"

text \<open>
  The conditional expression
  \<open>entry["result"][:200] + "..." if len(entry["result"]) > 200 else entry["result"]\<close>.
\<close>

definition result_preview :: "json \<Rightarrow> exn + json" where
  "result_preview result =
     (case result of
        JStr r \<Rightarrow> Inr (JStr (if length r > 200 then take 200 r @ ''...'' else r))
      | JArr xs \<Rightarrow>
          (if length xs > 200
           then Inl (Exn TypeError ''can only concatenate list to list'')
           else Inr result)
      | JObj kv \<Rightarrow>
          (if length kv > 200
           then Inl (Exn TypeError ''unhashable type: slice'')
           else Inr result)
      | _ \<Rightarrow> Inl (Exn TypeError ''object has no len()''))"

text \<open>One pass of the loop body of \<open>get_recent_context\<close>: the line for one entry.\<close>

definition format_entry :: "(json \<Rightarrow> string) \<Rightarrow> json \<Rightarrow> exn + string" where
  "format_entry repr entry =
     (case subscript entry ''step'' of
        Inl e \<Rightarrow> Inl e
      | Inr step \<Rightarrow>
          (case step of
             JObj skv \<Rightarrow>
               (let step_desc = dict_get skv ''action'' (JStr ''unknown'')
                in case subscript entry ''result'' of
                     Inl e \<Rightarrow> Inl e
                   | Inr result \<Rightarrow>
                       (case result_preview result of
                          Inl e \<Rightarrow> Inl e
                        | Inr preview \<Rightarrow>
                            Inr (''- '' @ format_value repr step_desc @ '': '' @
                                 format_value repr preview)))
           | _ \<Rightarrow> Inl (Exn AttributeError ''object has no attribute get'')))"

fun format_entries :: "(json \<Rightarrow> string) \<Rightarrow> json list \<Rightarrow> exn + string list" where
  "format_entries repr [] = Inr []"
| "format_entries repr (entry # rest) =
     (case format_entry repr entry of
        Inl e \<Rightarrow> Inl e
      | Inr line \<Rightarrow>
          (case format_entries repr rest of
             Inl e \<Rightarrow> Inl e
           | Inr lines \<Rightarrow> Inr (line # lines)))"

text \<open>
  \<open>get_recent_context\<close>. \<open>entries[-max_entries:]\<close> is \<open>slice_from (- max_entries)\<close>. A
  bucket that is a non-empty str is sliced and iterated by character, and the first
  character fails at \<open>entry["step"]\<close>.
\<close>

definition get_recent_context :: "(json \<Rightarrow> string) \<Rightarrow> string \<Rightarrow> int \<Rightarrow> json \<Rightarrow> exn + string" where
  "get_recent_context repr goal max_entries data =
     (case retrieve goal data of
        Inl e \<Rightarrow> Inl e
      | Inr entries \<Rightarrow>
          if \<not> truthy entries then Inr ''No prior context available.''
          else
            (case entries of
               JArr xs \<Rightarrow>
                 (case format_entries repr (slice_from (- max_entries) xs) of
                    Inl e \<Rightarrow> Inl e
                  | Inr context_parts \<Rightarrow> Inr (join newline context_parts))
             | JStr s \<Rightarrow>
                 (if slice_from (- max_entries) s = [] then Inr []
                  else Inl (Exn TypeError ''string indices must be integers''))
             | JObj kv \<Rightarrow> Inl (Exn TypeError ''unhashable type: slice'')
             | _ \<Rightarrow> Inl (Exn TypeError ''object is not subscriptable'')))"

definition clear_goal :: "string \<Rightarrow> json \<Rightarrow> exn + json" where
  "clear_goal goal data =
     (case contains_goal goal data of
        Inl e \<Rightarrow> Inl e
      | Inr present \<Rightarrow>
          if present
          then (case data of
                  JObj kv \<Rightarrow> Inr (JObj (AList.delete goal kv))
                | _ \<Rightarrow> Inl (Exn TypeError ''object does not support item deletion''))
          else Inr data)"

section \<open>Agent loop (core/agent_loop.py)\<close>

text \<open>
  The state a run works on: the memory document, the outside world the skills and the
  model act on, and a log of the names passed to \<open>registry.resolve\<close> (the registry is
  only read, so its use is visible only in this log).
\<close>

record 'w state =
  data :: json
  world :: 'w
  resolve_log :: "json list"

text \<open>The \<open>except Exception\<close> handler of \<open>_execute_step\<close>.\<close>

definition handle_step_error :: "'w env \<Rightarrow> string \<Rightarrow> json \<Rightarrow> exn \<Rightarrow> 'w state \<Rightarrow> (exn + bool) \<times> 'w state" where
  "handle_step_error env goal step e s =
     (let error_msg = ''Error: '' @ exn_str e
      in case store (clock env (world s)) goal step error_msg (data s) of
           Inl e' \<Rightarrow> (Inl e', s)
         | Inr d \<Rightarrow> (Inr False, s\<lparr>data := d\<rparr>))"

text \<open>
  \<open>_execute_step\<close>. The two \<open>step.get\<close> calls stand before the \<open>try\<close>: on a step that
  is not a dict the AttributeError leaves the function.
\<close>

definition execute_step :: "'w env \<Rightarrow> string \<Rightarrow> json \<Rightarrow> 'w state \<Rightarrow> (exn + bool) \<times> 'w state" where
  "execute_step env goal step s =
     (case step of
        JObj kv \<Rightarrow>
          (let action = dict_get kv ''action'' JNull;
               params = dict_get kv ''params'' (JObj []);
               s1 = s\<lparr>resolve_log := resolve_log s @ [action]\<rparr>
           in case resolve (registry env) (py_repr env) action of
                Inl e \<Rightarrow> handle_step_error env goal step e s1
              | Inr PyNone \<Rightarrow> (Inr False, s1)
              | Inr (Callable skill_func) \<Rightarrow>
                  (case skill_func params (world s1) of
                     (Inl e, w') \<Rightarrow> handle_step_error env goal step e (s1\<lparr>world := w'\<rparr>)
                   | (Inr result, w') \<Rightarrow>
                       (case store (clock env w') goal step result (data s1) of
                          Inl e \<Rightarrow> handle_step_error env goal step e (s1\<lparr>world := w'\<rparr>)
                        | Inr d \<Rightarrow> (Inr True, s1\<lparr>world := w', data := d\<rparr>))))
      | _ \<Rightarrow> (Inl (Exn AttributeError ''object has no attribute get''), s))"

text \<open>
  The first loop of \<open>run_agent\<close> logs every step of the plan and reads \<open>step['action']\<close>
  for it.
\<close>

fun log_plan :: "json list \<Rightarrow> exn + unit" where
  "log_plan [] = Inr ()"
| "log_plan (step # rest) =
     (case subscript step ''action'' of
        Inl e \<Rightarrow> Inl e
      | Inr a \<Rightarrow> log_plan rest)"

text \<open>
  The second loop, \<open>for i, step in enumerate(plan, 1)\<close>, from index \<open>i\<close> on the rest of
  the plan: the \<open>break\<close> at the cap, the log line with \<open>step['action']\<close>, the step.
\<close>

fun execute_plan :: "'w env \<Rightarrow> string \<Rightarrow> int \<Rightarrow> int \<Rightarrow> json list \<Rightarrow> nat \<Rightarrow> 'w state \<Rightarrow> (exn + nat) \<times> 'w state" where
  "execute_plan env goal max_iterations i [] success_count s = (Inr success_count, s)"
| "execute_plan env goal max_iterations i (step # rest) success_count s =
     (if i > max_iterations then (Inr success_count, s)
      else
        (case subscript step ''action'' of
           Inl e \<Rightarrow> (Inl e, s)
         | Inr a \<Rightarrow>
             (case execute_step env goal step s of
                (Inl e, s') \<Rightarrow> (Inl e, s')
              | (Inr success, s') \<Rightarrow>
                  execute_plan env goal max_iterations (i + 1) rest
                    (if success then success_count + 1 else success_count) s')))"

text \<open>
  The body of the \<open>try\<close> of \<open>run_agent\<close> from the plan on. Python divides the two ints
  to a float; the quotient is taken exactly here, which gives the same comparison with
  0.5 for every plan shorter than \<open>2^53\<close> steps.
\<close>

definition run_plan :: "'w env \<Rightarrow> string \<Rightarrow> int \<Rightarrow> json list \<Rightarrow> 'w state \<Rightarrow> (exn + bool) \<times> 'w state" where
  "run_plan env goal max_iterations plan s =
     (if plan = [] then (Inr False, s)
      else
        (case log_plan plan of
           Inl e \<Rightarrow> (Inl e, s)
         | Inr u \<Rightarrow>
             (case execute_plan env goal max_iterations 1 plan 0 s of
                (Inl e, s') \<Rightarrow> (Inl e, s')
              | (Inr success_count, s') \<Rightarrow>
                  (let success_rate = real success_count / real (length plan)
                   in (Inr (success_rate > 1 / 2), s')))))"

definition run_agent_body :: "'w env \<Rightarrow> string \<Rightarrow> int \<Rightarrow> 'w state \<Rightarrow> (exn + bool) \<times> 'w state" where
  "run_agent_body env goal max_iterations s =
     (case get_recent_context (py_repr env) goal 5 (data s) of
        Inl e \<Rightarrow> (Inl e, s)
      | Inr prior_context \<Rightarrow>
          (let (plan, w') = plan_steps env goal prior_context (world s)
           in run_plan env goal max_iterations plan (s\<lparr>world := w'\<rparr>)))"

text \<open>\<open>run_agent\<close>: the \<open>try\<close> and its handler, which returns False.\<close>

definition run_agent :: "'w env \<Rightarrow> string \<Rightarrow> int \<Rightarrow> 'w state \<Rightarrow> bool \<times> 'w state" where
  "run_agent env goal max_iterations s =
     (case run_agent_body env goal max_iterations s of
        (Inl e, s') \<Rightarrow> (False, s')
      | (Inr b, s') \<Rightarrow> (b, s'))"

section \<open>Definitions used to state the properties\<close>

text \<open>
  The validation as the specification words it: the entries that are structured objects
  with a non-empty \<open>action\<close> naming a registered skill are kept, and a kept entry whose
  \<open>params\<close> is missing or not an object gets an empty mapping.
\<close>

definition valid_step :: "string list \<Rightarrow> json \<Rightarrow> bool" where
  "valid_step skills step =
     (case step of
        JObj kv \<Rightarrow>
          (case map_of kv ''action'' of
             Some (JStr a) \<Rightarrow> a \<noteq> [] \<and> a \<in> set skills
           | _ \<Rightarrow> False)
      | _ \<Rightarrow> False)"

definition coerce_params :: "json \<Rightarrow> json" where
  "coerce_params step =
     (case step of
        JObj kv \<Rightarrow>
          (case map_of kv ''params'' of
             Some (JObj ps) \<Rightarrow> JObj kv
           | _ \<Rightarrow> JObj (AList.update ''params'' (JObj []) kv))
      | _ \<Rightarrow> step)"

text \<open>
  An environment without a usable model: \<open>MistralLLM\<close> raises ImportError when
  ctransformers is not installed. No skill is registered.
\<close>

definition offline_env :: "unit env" where
  "offline_env =
     \<lparr>registry = [],
      llm_generate = (\<lambda>prompt w.
         (Inl (Exn (OtherError ''ImportError'') ''ctransformers is required but not installed''), w)),
      json_loads = (\<lambda>s. Inl (Exn JSONDecodeError ''Expecting value'')),
      py_repr = (\<lambda>v. ''?''),
      clock = (\<lambda>w. ''2024-01-01T00:00:00'')\<rparr>"

text \<open>
  Executing steps in order with no cap, as one pass of the second loop of \<open>run_agent\<close>
  does for each: the outcome of every step, and the state after the last.
\<close>

fun run_steps :: "'w env \<Rightarrow> string \<Rightarrow> json list \<Rightarrow> 'w state \<Rightarrow> (exn + bool list) \<times> 'w state" where
  "run_steps env goal [] s = (Inr [], s)"
| "run_steps env goal (step # rest) s =
     (case subscript step ''action'' of
        Inl e \<Rightarrow> (Inl e, s)
      | Inr a \<Rightarrow>
          (case execute_step env goal step s of
             (Inl e, s') \<Rightarrow> (Inl e, s')
           | (Inr ok, s') \<Rightarrow>
               (case run_steps env goal rest s' of
                  (Inl e, s'') \<Rightarrow> (Inl e, s'')
                | (Inr oks, s'') \<Rightarrow> (Inr (ok # oks), s''))))"

definition successes :: "bool list \<Rightarrow> nat" where
  "successes oks = length (filter (\<lambda>ok. ok) oks)"

definition step_action :: "json \<Rightarrow> json" where
  "step_action step = (case step of JObj kv \<Rightarrow> dict_get kv ''action'' JNull | _ \<Rightarrow> JNull)"

text \<open>
  An environment with a scripted model, for concrete runs. The model answers with the
  JSON text of a list of steps and \<open>json.loads\<close> parses exactly that text. Two skills are
  registered: \<open>echo\<close> returns its \<open>task\<close> argument and \<open>fail\<close> raises.
\<close>

definition echo_skill :: "unit skill" where
  "echo_skill params w =
     (case params of
        JObj kv \<Rightarrow>
          (case map_of kv ''task'' of
             Some (JStr t) \<Rightarrow> (Inr t, w)
           | _ \<Rightarrow> (Inl (Exn TypeError ''echo() missing 1 required positional argument''), w))
      | _ \<Rightarrow> (Inl (Exn TypeError ''echo() argument after ** must be a mapping''), w))"

definition failing_skill :: "unit skill" where
  "failing_skill params w = (Inl (Exn (OtherError ''RuntimeError'') ''boom''), w)"

definition plan_text :: "string list \<Rightarrow> string" where
  "plan_text texts = ''['' @ join '', '' texts @ '']''"

definition scripted_env :: "(string \<times> json) list \<Rightarrow> unit env" where
  "scripted_env steps =
     \<lparr>registry = [(''echo'', echo_skill), (''fail'', failing_skill)],
      llm_generate = (\<lambda>prompt w. (Inr (plan_text (map fst steps)), w)),
      json_loads = (\<lambda>s. if s = plan_text (map fst steps) then Inr (JArr (map snd steps))
                         else Inl (Exn JSONDecodeError ''Expecting value'')),
      py_repr = (\<lambda>v. ''?''),
      clock = (\<lambda>w. ''2024-01-01T00:00:00'')\<rparr>"

definition echo_step :: "string \<times> json" where
  \<open>echo_step =
     (''{"action": "echo", "params": {"task": "demo"}}'',
      JObj [(''action'', JStr ''echo''), (''params'', JObj [(''task'', JStr ''demo'')])])\<close>

definition fail_step :: "string \<times> json" where
  \<open>fail_step =
     (''{"action": "fail", "params": {}}'',
      JObj [(''action'', JStr ''fail''), (''params'', JObj [])])\<close>

definition empty_state :: "unit state" where
  "empty_state = \<lparr>data = JObj [], world = (), resolve_log = []\<rparr>"


text \<open>A step whose action no skill is registered for.\<close>

definition deploy_step :: "string \<times> json" where
  \<open>deploy_step = (''{"action": "deploy"}'', JObj [(''action'', JStr ''deploy'')])\<close>

text \<open>
  The digest line of one entry as the specification words it: the action, then the
  result, cut to its first 200 characters and an ellipsis when it is longer.
\<close>

definition context_line :: "string \<Rightarrow> string \<Rightarrow> string" where
  "context_line action result =
     ''- '' @ action @ '': '' @
     (if length result > 200 then take 200 result @ ''...'' else result)"

section \<open>Planner: validation and fallback\<close>

lemma validate_step_cases:
  "validate_steps (step # steps) skills =
     (if valid_step skills step then coerce_params step # validate_steps steps skills
      else validate_steps steps skills)"
  by (cases step) (auto simp: valid_step_def coerce_params_def dict_get_def Let_def
        split: option.splits json.splits)

lemma validate_steps_filter:
  "validate_steps steps skills = map coerce_params (filter (valid_step skills) steps)"
proof (induction steps)
  case Nil
  show ?case by simp
next
  case (Cons step steps)
  show ?case
    unfolding validate_step_cases using Cons.IH by simp
qed

text \<open>
  C6. For every raw candidate array, \<open>_validate_steps\<close> keeps exactly the entries that
  are structured objects with a non-empty \<open>action\<close> naming a registered skill, in their
  order, and a kept entry whose \<open>params\<close> is missing or not an object gets the empty
  mapping; every other field of a kept entry is as it was.
\<close>

theorem validate_steps_spec:
  "validate_steps steps skills = map coerce_params (filter (valid_step skills) steps)"
  by (rule validate_steps_filter)

text \<open>One valid step and one step with an unregistered action: the valid step alone.\<close>

theorem validate_steps_spec_witness:
  "validate_steps
     [JObj [(''action'', JStr ''generate_task_code''), (''params'', JObj [(''task'', JStr ''x'')])],
      JObj [(''action'', JStr ''deploy''), (''params'', JObj [])]]
     [''generate_task_code'', ''trace_variable_flow'']
   = [JObj [(''action'', JStr ''generate_task_code''), (''params'', JObj [(''task'', JStr ''x'')])]]"
  using validate_steps_spec [of
     "[JObj [(''action'', JStr ''generate_task_code''), (''params'', JObj [(''task'', JStr ''x'')])],
      JObj [(''action'', JStr ''deploy''), (''params'', JObj [])]]"
     "[''generate_task_code'', ''trace_variable_flow'']"]
  by (simp add: valid_step_def coerce_params_def)

lemma no_bracket_in_error_text:
  "parse_plan_response loads ''Error: Unable to generate response''
     = Inl (Exn ValueError ''No JSON array found in response'')"
  by code_simp

lemma llm_failure_plan_attempt:
  assumes "llm_generate env
             (planner_prompt goal ctx (format_skills_description (list_skills (registry env)))) w
           = (Inl e, w')"
  shows "plan_attempt env goal ctx w = (Inl (Exn ValueError ''No JSON array found in response''), w')"
  using assms by (simp add: plan_attempt_def call_model_def no_bracket_in_error_text)

lemma lower_patch_the_parser: "lower ''patch the parser'' = ''patch the parser''"
  by code_simp

lemma lower_improve_the_docs: "lower ''Improve the docs'' = ''improve the docs''"
  by code_simp

lemma lower_fix_the_docs: "lower ''Fix the docs'' = ''fix the docs''"
  by code_simp

text \<open>
  C1, as the code has it. Whenever the planner fails (the model raises, or extracting
  or parsing its answer raises), \<open>plan_steps\<close> returns the fallback plan. The fallback
  plan has exactly two steps if the lower-cased goal contains "patch" or "improve", and
  otherwise it is the single step generate_task_code with the goal as its task.
\<close>

theorem plan_steps_fallback:
  assumes "(\<exists>e w'. llm_generate env
             (planner_prompt goal ctx (format_skills_description (list_skills (registry env)))) w
               = (Inl e, w'))
           \<or> (\<exists>e. fst (plan_attempt env goal ctx w) = Inl e)"
  shows "fst (plan_steps env goal ctx w) = get_fallback_plan goal \<and>
         (if sublist ''patch'' (lower goal) \<or> sublist ''improve'' (lower goal)
          then length (fst (plan_steps env goal ctx w)) = 2
          else fst (plan_steps env goal ctx w) =
                 [JObj [(''action'', JStr ''generate_task_code''),
                        (''params'', JObj [(''task'', JStr goal)])]])"
proof -
  from assms obtain e where "fst (plan_attempt env goal ctx w) = Inl e"
    using llm_failure_plan_attempt by fastforce
  then have "fst (plan_steps env goal ctx w) = get_fallback_plan goal"
    by (cases "plan_attempt env goal ctx w") (simp add: plan_steps_def)
  then show ?thesis by (simp add: get_fallback_plan_def)
qed

text \<open>With no model available, a goal with "Improve" gets two steps and another goal one.\<close>

theorem plan_steps_fallback_witness:
  "length (fst (plan_steps offline_env ''Improve the docs'' [] ())) = 2 \<and>
   fst (plan_steps offline_env ''Fix the docs'' [] ()) =
     [JObj [(''action'', JStr ''generate_task_code''),
            (''params'', JObj [(''task'', JStr ''Fix the docs'')])]]"
proof -
  have h1: "(\<exists>e w'. llm_generate offline_env
             (planner_prompt ''Improve the docs'' []
                (format_skills_description (list_skills (registry offline_env)))) ()
               = (Inl e, w'))
           \<or> (\<exists>e. fst (plan_attempt offline_env ''Improve the docs'' [] ()) = Inl e)"
    by (simp add: offline_env_def)
  have h2: "(\<exists>e w'. llm_generate offline_env
             (planner_prompt ''Fix the docs'' []
                (format_skills_description (list_skills (registry offline_env)))) ()
               = (Inl e, w'))
           \<or> (\<exists>e. fst (plan_attempt offline_env ''Fix the docs'' [] ()) = Inl e)"
    by (simp add: offline_env_def)
  show ?thesis
    using plan_steps_fallback [OF h1, THEN conjunct2]
      plan_steps_fallback [OF h2, THEN conjunct2]
    by (simp add: lower_improve_the_docs lower_fix_the_docs sublist_code)
qed

text \<open>
  The goal "patch the parser" does not contain "improve", the planner fails, and the
  plan returned has two steps, not one.
\<close>

theorem plan_steps_fallback_counterexample:
  "fst (plan_attempt offline_env ''patch the parser'' [] ())
     = Inl (Exn ValueError ''No JSON array found in response'') \<and>
   \<not> sublist ''improve'' (lower ''patch the parser'') \<and>
   fst (plan_steps offline_env ''patch the parser'' [] ()) =
     [JObj [(''action'', JStr ''generate_task_code''),
            (''params'', JObj [(''task'', JStr ''patch the parser'')])],
      JObj [(''action'', JStr ''trace_variable_flow''),
            (''params'', JObj [(''file'', JStr ''patch_engine.py'')])]]"
proof -
  have a: "plan_attempt offline_env ''patch the parser'' [] ()
             = (Inl (Exn ValueError ''No JSON array found in response''), ())"
    by (rule llm_failure_plan_attempt) (simp add: offline_env_def)
  have b: "\<not> sublist ''improve'' (lower ''patch the parser'')"
    by (simp add: lower_patch_the_parser sublist_code)
  have c: "get_fallback_plan ''patch the parser'' =
     [JObj [(''action'', JStr ''generate_task_code''),
            (''params'', JObj [(''task'', JStr ''patch the parser'')])],
      JObj [(''action'', JStr ''trace_variable_flow''),
            (''params'', JObj [(''file'', JStr ''patch_engine.py'')])]]"
    by (simp add: get_fallback_plan_def lower_patch_the_parser sublist_code)
  show ?thesis using a b c by (simp add: plan_steps_def)
qed

section \<open>Memory: store, retrieve, clear\<close>

lemma retrieve_JArr_cases:
  "retrieve goal d = Inr (JArr es) \<longleftrightarrow>
     (\<exists>kv. d = JObj kv \<and> (map_of kv goal = Some (JArr es) \<or> (map_of kv goal = None \<and> es = [])))"
  by (cases d) (auto simp: retrieve_def dict_get_def split: option.splits)

lemma map_of_None_iff_notin: "map_of kv k = None \<longleftrightarrow> k \<notin> set (map fst kv)"
  by (simp add: map_of_eq_None_iff)

lemma store_ok:
  assumes "retrieve goal d = Inr (JArr es)"
  shows "\<exists>kv kv'. d = JObj kv \<and> store ts goal step result d = Inr (JObj kv') \<and>
           map_of kv' = (map_of kv)(goal \<mapsto> JArr (es @ [mk_entry step result ts]))"
proof -
  from assms obtain kv where d: "d = JObj kv"
    and b: "map_of kv goal = Some (JArr es) \<or> (map_of kv goal = None \<and> es = [])"
    unfolding retrieve_JArr_cases by blast
  from b show ?thesis
  proof
    assume h: "map_of kv goal = Some (JArr es)"
    then have "goal \<in> set (map fst kv)"
      using map_of_None_iff_notin [of kv goal] by auto
    with h d show ?thesis
      by (simp add: store_def contains_goal_def Let_def update_conv')
  next
    assume h: "map_of kv goal = None \<and> es = []"
    then have "goal \<notin> set (map fst kv)"
      using map_of_None_iff_notin [of kv goal] by auto
    with h d show ?thesis
      by (simp add: store_def contains_goal_def Let_def update_conv')
  qed
qed

lemma store_Inr_bucket:
  assumes "store ts goal step result d = Inr d'"
  shows "\<exists>es. retrieve goal d = Inr (JArr es)"
proof (cases d)
  case (JObj kv)
  show ?thesis
  proof (cases "goal \<in> set (map fst kv)")
    case True
    with assms JObj show ?thesis
      by (auto simp: store_def contains_goal_def Let_def retrieve_def dict_get_def
            split: option.splits json.splits)
  next
    case False
    then have "map_of kv goal = None" using map_of_None_iff_notin [of kv goal] by simp
    with JObj show ?thesis by (simp add: retrieve_def dict_get_def)
  qed
qed (use assms in \<open>auto simp: store_def contains_goal_def Let_def split: if_splits\<close>)

lemma store_retrieve:
  assumes "retrieve goal d = Inr (JArr es)"
  shows "\<exists>d'. store ts goal step result d = Inr d' \<and>
           retrieve goal d' = Inr (JArr (es @ [mk_entry step result ts])) \<and>
           (\<forall>g. g \<noteq> goal \<longrightarrow> retrieve g d' = retrieve g d)"
proof -
  from store_ok [OF assms, of ts step result] obtain kv kv' where
    d: "d = JObj kv" and s: "store ts goal step result d = Inr (JObj kv')"
    and m: "map_of kv' = (map_of kv)(goal \<mapsto> JArr (es @ [mk_entry step result ts]))"
    by blast
  have "retrieve goal (JObj kv') = Inr (JArr (es @ [mk_entry step result ts]))"
    by (simp add: retrieve_def dict_get_def m)
  moreover have "\<forall>g. g \<noteq> goal \<longrightarrow> retrieve g (JObj kv') = retrieve g d"
    by (simp add: retrieve_def dict_get_def m d)
  ultimately show ?thesis using s by blast
qed

text \<open>
  C4. On a store whose bucket for the goal is a sequence \<open>es\<close> (empty when the goal is
  absent), \<open>store(goal, step, result)\<close> returns, and afterwards \<open>retrieve(goal)\<close> is \<open>es\<close>
  followed by one entry, which holds exactly that step and that result; the bucket of
  every other goal is as before. So the earlier entries of every goal stay present,
  unchanged and in their order.
\<close>

theorem store_appends:
  assumes "retrieve goal d = Inr (JArr es)"
  shows "\<exists>d'. store ts goal step result d = Inr d' \<and>
           retrieve goal d' = Inr (JArr (es @ [mk_entry step result ts])) \<and>
           subscript (mk_entry step result ts) ''step'' = Inr step \<and>
           subscript (mk_entry step result ts) ''result'' = Inr (JStr result) \<and>
           (\<forall>g. g \<noteq> goal \<longrightarrow> retrieve g d' = retrieve g d)"
proof -
  have "subscript (mk_entry step result ts) ''step'' = Inr step"
    and "subscript (mk_entry step result ts) ''result'' = Inr (JStr result)"
    by (simp_all add: subscript_def mk_entry_def)
  then show ?thesis using store_retrieve [OF assms, of ts step result] by blast
qed

text \<open>A second entry for the goal "demo" comes after the first; the goal "other" keeps its bucket.\<close>

theorem store_appends_witness:
  "retrieve ''demo''
     (JObj [(''other'', JArr []), (''demo'', JArr [mk_entry (JObj []) ''r0'' ''t0''])])
     = Inr (JArr [mk_entry (JObj []) ''r0'' ''t0'']) \<and>
   store ''t1'' ''demo'' (JObj [(''action'', JStr ''echo'')]) ''r1''
     (JObj [(''other'', JArr []), (''demo'', JArr [mk_entry (JObj []) ''r0'' ''t0''])])
     = Inr (JObj [(''other'', JArr []),
                  (''demo'', JArr [mk_entry (JObj []) ''r0'' ''t0'',
                                   mk_entry (JObj [(''action'', JStr ''echo'')]) ''r1'' ''t1''])])"
proof -
  have h: "retrieve ''demo''
     (JObj [(''other'', JArr []), (''demo'', JArr [mk_entry (JObj []) ''r0'' ''t0''])])
     = Inr (JArr [mk_entry (JObj []) ''r0'' ''t0''])"
    by (simp add: retrieve_def dict_get_def)
  show ?thesis
    using h store_appends [OF h, of "''t1''" "JObj [(''action'', JStr ''echo'')]" "''r1''"]
    by (simp add: store_def contains_goal_def)
qed

text \<open>
  C9. On every store (a dict), \<open>clear_goal(goal)\<close> returns; afterwards \<open>retrieve(goal)\<close>
  is the empty sequence, a second \<open>clear_goal(goal)\<close> returns the same store, a goal that
  was absent leaves the store as it was, and the bucket of every other goal is kept.
\<close>

theorem clear_goal_idempotent:
  "\<exists>kv'. clear_goal goal (JObj kv) = Inr (JObj kv') \<and>
          retrieve goal (JObj kv') = Inr (JArr []) \<and>
          clear_goal goal (JObj kv') = Inr (JObj kv') \<and>
          (goal \<notin> set (map fst kv) \<longrightarrow> kv' = kv) \<and>
          (\<forall>g. g \<noteq> goal \<longrightarrow> retrieve g (JObj kv') = retrieve g (JObj kv))"
proof (cases "goal \<in> set (map fst kv)")
  case True
  have n: "goal \<notin> set (map fst (AList.delete goal kv))"
    by (simp add: delete_notin_dom)
  have "clear_goal goal (JObj kv) = Inr (JObj (AList.delete goal kv))"
    using True by (simp add: clear_goal_def contains_goal_def)
  moreover have "retrieve goal (JObj (AList.delete goal kv)) = Inr (JArr [])"
    by (simp add: retrieve_def dict_get_def delete_conv')
  moreover have "clear_goal goal (JObj (AList.delete goal kv)) = Inr (JObj (AList.delete goal kv))"
    using n by (simp add: clear_goal_def contains_goal_def)
  moreover have "\<forall>g. g \<noteq> goal \<longrightarrow>
      retrieve g (JObj (AList.delete goal kv)) = retrieve g (JObj kv)"
    by (simp add: retrieve_def dict_get_def delete_conv')
  ultimately show ?thesis using True by blast
next
  case False
  then have "map_of kv goal = None" using map_of_None_iff_notin [of kv goal] by simp
  then have "retrieve goal (JObj kv) = Inr (JArr [])"
    by (simp add: retrieve_def dict_get_def)
  moreover have "clear_goal goal (JObj kv) = Inr (JObj kv)"
    using False by (simp add: clear_goal_def contains_goal_def)
  ultimately show ?thesis by blast
qed

text \<open>Clearing the absent goal "gone" leaves a store with one bucket as it is.\<close>

theorem clear_goal_idempotent_witness:
  "''gone'' \<notin> set (map fst [(''demo'', JArr [mk_entry (JObj []) ''r0'' ''t0''])]) \<and>
   clear_goal ''gone'' (JObj [(''demo'', JArr [mk_entry (JObj []) ''r0'' ''t0''])])
     = Inr (JObj [(''demo'', JArr [mk_entry (JObj []) ''r0'' ''t0''])]) \<and>
   clear_goal ''demo'' (JObj [(''demo'', JArr [mk_entry (JObj []) ''r0'' ''t0''])])
     = Inr (JObj [])"
  using clear_goal_idempotent [of "''gone''" "[(''demo'', JArr [mk_entry (JObj []) ''r0'' ''t0''])]"]
  by (simp add: clear_goal_def contains_goal_def)

section \<open>Memory: the recent context\<close>

lemma format_entry_mk_entry:
  assumes "map_of skv ''action'' = Some (JStr a)"
  shows "format_entry repr (mk_entry (JObj skv) result ts) = Inr (context_line a result)"
  using assms
  by (simp add: format_entry_def mk_entry_def subscript_def dict_get_def result_preview_def
        format_value_def context_line_def)

lemma format_entry_mk_entry_unknown:
  assumes "map_of skv ''action'' = None"
  shows "format_entry repr (mk_entry (JObj skv) result ts) = Inr (context_line ''unknown'' result)"
  using assms
  by (simp add: format_entry_def mk_entry_def subscript_def dict_get_def result_preview_def
        format_value_def context_line_def)

lemma get_recent_context_sentinel:
  assumes "map_of kv goal = None \<or> map_of kv goal = Some (JArr [])"
  shows "get_recent_context repr goal max_entries (JObj kv) = Inr ''No prior context available.''"
  using assms by (auto simp: get_recent_context_def retrieve_def dict_get_def)

lemma get_recent_context_tail:
  assumes "map_of kv goal = Some (JArr entries)" and "entries \<noteq> []" and "0 < max_entries"
  shows "get_recent_context repr goal max_entries (JObj kv) =
     (case format_entries repr (drop (length entries - nat max_entries) entries) of
        Inl e \<Rightarrow> Inl e
      | Inr context_parts \<Rightarrow> Inr (join newline context_parts))"
proof -
  from assms(3) have "slice_from (- max_entries) entries
      = drop (length entries - nat max_entries) entries"
    by (simp add: slice_from_def Let_def max_def nat_diff_distrib') 
  with assms show ?thesis
    by (simp add: get_recent_context_def retrieve_def dict_get_def)
qed

lemma get_recent_context_all:
  assumes "map_of kv goal = Some (JArr entries)" and "entries \<noteq> []"
  shows "get_recent_context repr goal 0 (JObj kv) =
     (case format_entries repr entries of
        Inl e \<Rightarrow> Inl e
      | Inr context_parts \<Rightarrow> Inr (join newline context_parts))"
  using assms
  by (simp add: get_recent_context_def retrieve_def dict_get_def slice_from_def)

text \<open>
  C7 asks for the last \<open>max_entries\<close> entries for every \<open>max_entries\<close>. For a positive
  \<open>max_entries\<close> the digest is as claimed (\<open>get_recent_context_tail\<close>, with the
  sentinel for an empty or absent bucket and the lines of \<open>format_entry_mk_entry\<close>). For
  \<open>max_entries = 0\<close> the slice \<open>entries[-0:]\<close> is the whole bucket: on a bucket of two
  entries the digest has both lines, where the last zero entries would give none.
\<close>

theorem get_recent_context_zero_entries:
  "get_recent_context repr ''demo'' 0
     (JObj [(''demo'',
             JArr [mk_entry (JObj [(''action'', JStr ''echo'')]) ''first'' ''t1'',
                   mk_entry (JObj [(''action'', JStr ''fail'')]) ''Error: boom'' ''t2''])])
   = Inr (''- echo: first'' @ newline @ ''- fail: Error: boom'')"
  by (simp add: get_recent_context_def retrieve_def dict_get_def slice_from_def
        format_entry_def mk_entry_def subscript_def result_preview_def format_value_def)

section \<open>Agent loop\<close>

lemma successes_simps [simp]:
  "successes [] = 0"
  "successes (ok # oks) = (if ok then 1 else 0) + successes oks"
  by (simp_all add: successes_def)

lemma execute_plan_run_steps:
  "execute_plan env goal m i plan c s =
     (case run_steps env goal (take (nat (m - i + 1)) plan) s of
        (Inl e, s') \<Rightarrow> (Inl e, s')
      | (Inr oks, s') \<Rightarrow> (Inr (c + successes oks), s'))"
proof (induction plan arbitrary: i c s)
  case Nil
  show ?case by simp
next
  case (Cons step rest)
  show ?case
  proof (cases "i > m")
    case True
    then show ?thesis by simp
  next
    case False
    then have n: "nat (m - i + 1) = Suc (nat (m - (i + 1) + 1))" by simp
    show ?thesis
      using False
      by (simp add: n Cons.IH split: sum.splits prod.splits)
  qed
qed

lemma resolve_not_None: "resolve reg repr name \<noteq> Inr PyNone"
  by (simp add: resolve_def split: json.splits option.splits)

lemma store_fails_again:
  assumes "store ts goal step result d = Inl e"
  shows "\<exists>e'. store ts' goal step' result' d = Inl e'"
proof (rule ccontr)
  assume "\<not> ?thesis"
  then obtain d' where "store ts' goal step' result' d = Inr d'"
    by (cases "store ts' goal step' result' d") auto
  from store_Inr_bucket [OF this] obtain es where "retrieve goal d = Inr (JArr es)" ..
  from store_ok [OF this, of ts step result] assms show False by auto
qed

lemma handle_step_error_Inr:
  assumes "handle_step_error env goal step e s = (Inr ok, s')"
  shows "\<not> ok \<and> store (clock env (world s)) goal step (''Error: '' @ exn_str e) (data s) = Inr (data s')
         \<and> world s' = world s \<and> resolve_log s' = resolve_log s"
  using assms by (auto simp: handle_step_error_def Let_def split: sum.splits)

lemma execute_step_Inr:
  assumes "execute_step env goal step s = (Inr ok, s')"
  shows "\<exists>result. store (clock env (world s')) goal step result (data s) = Inr (data s') \<and>
           resolve_log s' = resolve_log s @ [step_action step] \<and>
           (\<not> ok \<longrightarrow> (\<exists>e. result = ''Error: '' @ exn_str e))"
proof (cases step)
  case (JObj kv)
  let ?a = "dict_get kv ''action'' JNull"
  let ?s1 = "s\<lparr>resolve_log := resolve_log s @ [?a]\<rparr>"
  show ?thesis
  proof (cases "resolve (registry env) (py_repr env) ?a")
    case (Inl e)
    with assms JObj have "handle_step_error env goal step e ?s1 = (Inr ok, s')"
      by (simp add: execute_step_def Let_def)
    from handle_step_error_Inr [OF this] JObj show ?thesis
      by (auto simp: step_action_def)
  next
    case (Inr r)
    with resolve_not_None [of "registry env" "py_repr env" ?a] obtain f where r: "r = Callable f"
      by (cases r) auto
    obtain out w' where f: "f (dict_get kv ''params'' (JObj [])) (world s) = (out, w')"
      by (cases "f (dict_get kv ''params'' (JObj [])) (world s)")
    show ?thesis
    proof (cases out)
      case (Inl e)
      with assms JObj Inr r f have
        "handle_step_error env goal step e (?s1\<lparr>world := w'\<rparr>) = (Inr ok, s')"
        by (simp add: execute_step_def Let_def)
      from handle_step_error_Inr [OF this] JObj show ?thesis
        by (auto simp: step_action_def)
    next
      case res: (Inr result)
      show ?thesis
      proof (cases "store (clock env w') goal step result (data s)")
        case (Inl e)
        with assms JObj Inr r f res have
          h: "handle_step_error env goal step e (?s1\<lparr>world := w'\<rparr>) = (Inr ok, s')"
          by (simp add: execute_step_def Let_def)
        from store_fails_again [OF Inl] obtain e' where
          "store (clock env w') goal step (''Error: '' @ exn_str e) (data s) = Inl e'" by blast
        with h show ?thesis by (simp add: handle_step_error_def Let_def)
      next
        case st: (Inr d)
        with assms JObj Inr r f res show ?thesis
          by (auto simp: execute_step_def Let_def step_action_def)
      qed
    qed
  qed
qed (use assms in \<open>auto simp: execute_step_def\<close>)

lemma run_steps_Inr:
  assumes "run_steps env goal steps s = (Inr oks, s')"
  shows "length oks = length steps \<and>
         resolve_log s' = resolve_log s @ map step_action steps \<and>
         (\<forall>g. g \<noteq> goal \<longrightarrow> retrieve g (data s') = retrieve g (data s)) \<and>
         ((steps = [] \<and> data s' = data s) \<or>
          (\<exists>es new. retrieve goal (data s) = Inr (JArr es) \<and>
                     retrieve goal (data s') = Inr (JArr (es @ new)) \<and>
                     map (\<lambda>entry. subscript entry ''step'') new = map Inr steps))"
  using assms
proof (induction steps arbitrary: oks s)
  case Nil
  then show ?case by simp
next
  case (Cons step rest)
  from Cons.prems obtain a where a: "subscript step ''action'' = Inr a"
    by (cases "subscript step ''action''") auto
  from Cons.prems a obtain ok s1 where e: "execute_step env goal step s = (Inr ok, s1)"
    by (cases "execute_step env goal step s"; cases "fst (execute_step env goal step s)") auto
  from Cons.prems a e obtain oks' where r: "run_steps env goal rest s1 = (Inr oks', s')"
    and oks: "oks = ok # oks'"
    by (cases "run_steps env goal rest s1"; cases "fst (run_steps env goal rest s1)") auto
  from execute_step_Inr [OF e] obtain result where
    st: "store (clock env (world s1)) goal step result (data s) = Inr (data s1)"
    and lg: "resolve_log s1 = resolve_log s @ [step_action step]" by blast
  from store_Inr_bucket [OF st] obtain es where es: "retrieve goal (data s) = Inr (JArr es)" ..
  from store_retrieve [OF es, of "clock env (world s1)" step result] st
  have r1: "retrieve goal (data s1) = Inr (JArr (es @ [mk_entry step result (clock env (world s1))]))"
    and o1: "\<forall>g. g \<noteq> goal \<longrightarrow> retrieve g (data s1) = retrieve g (data s)"
    by auto
  note ih = Cons.IH [OF r]
  have sub: "subscript (mk_entry step result (clock env (world s1))) ''step'' = Inr step"
    by (simp add: subscript_def mk_entry_def)
  have "\<exists>new. retrieve goal (data s') = Inr (JArr (es @ new)) \<and>
              map (\<lambda>entry. subscript entry ''step'') new = map Inr (step # rest)"
  proof (cases "rest = [] \<and> data s' = data s1")
    case True
    with r1 sub show ?thesis
      by (intro exI [of _ "[mk_entry step result (clock env (world s1))]"]) simp
  next
    case False
    with ih obtain es1 new1 where
      "retrieve goal (data s1) = Inr (JArr es1)"
      "retrieve goal (data s') = Inr (JArr (es1 @ new1))"
      "map (\<lambda>entry. subscript entry ''step'') new1 = map Inr rest" by blast
    with r1 sub show ?thesis
      by (intro exI [of _ "mk_entry step result (clock env (world s1)) # new1"]) simp
  qed
  with es ih lg o1 oks show ?case by auto
qed

lemma log_plan_ok:
  assumes "\<forall>step \<in> set plan. \<exists>a. subscript step ''action'' = Inr a"
  shows "log_plan plan = Inr ()"
  using assms by (induction plan) auto

lemma coerce_params_action:
  assumes "valid_step skills step"
  shows "\<exists>a. subscript (coerce_params step) ''action'' = Inr a"
  using assms
  by (auto simp: valid_step_def coerce_params_def subscript_def update_conv'
        split: json.splits option.splits)

lemma validate_steps_actions:
  "\<forall>step \<in> set (validate_steps steps skills). \<exists>a. subscript step ''action'' = Inr a"
  unfolding validate_steps_filter using coerce_params_action by auto

lemma fallback_plan_actions:
  "\<forall>step \<in> set (get_fallback_plan goal). \<exists>a. subscript step ''action'' = Inr a"
  by (simp add: get_fallback_plan_def subscript_def)

lemma plan_steps_actions:
  assumes "plan_steps env goal ctx w = (plan, w')"
  shows "\<forall>step \<in> set plan. \<exists>a. subscript step ''action'' = Inr a"
proof -
  obtain response w1 where c: "call_model env (planner_prompt goal ctx
      (format_skills_description (list_skills (registry env)))) w = (response, w1)"
    by (cases "call_model env (planner_prompt goal ctx
      (format_skills_description (list_skills (registry env)))) w")
  show ?thesis
  proof (cases "parse_plan_response (json_loads env) response")
    case (Inl e)
    with assms c have "plan = get_fallback_plan goal"
      by (simp add: plan_steps_def plan_attempt_def Let_def)
    then show ?thesis using fallback_plan_actions by simp
  next
    case (Inr steps)
    with assms c have "plan = validate_steps steps (list_skills (registry env))"
      by (simp add: plan_steps_def plan_attempt_def Let_def)
    then show ?thesis using validate_steps_actions by simp
  qed
qed

lemma plan_steps_log_plan:
  assumes "plan_steps env goal ctx w = (plan, w')"
  shows "log_plan plan = Inr ()"
  using log_plan_ok [OF plan_steps_actions [OF assms]] .

lemma rate_majority:
  assumes "0 < n"
  shows "(real c / real n > 1 / 2) \<longleftrightarrow> (n < 2 * c)"
proof -
  from assms have "(real c / real n > 1 / 2) \<longleftrightarrow> (real n < 2 * real c)"
    by (simp add: field_simps)
  also have "\<dots> \<longleftrightarrow> (n < 2 * c)"
    by (metis of_nat_less_iff of_nat_mult of_nat_numeral)
  finally show ?thesis .
qed

lemma real_majority: "(real n < real c * 2) \<longleftrightarrow> (n < 2 * c)"
proof -
  have "(real n < real c * 2) \<longleftrightarrow> (real n < real (2 * c))" by (simp add: mult.commute)
  also have "\<dots> \<longleftrightarrow> (n < 2 * c)" by (simp only: of_nat_less_iff)
  finally show ?thesis .
qed

lemma run_plan_run_steps:
  assumes "log_plan plan = Inr ()" and "plan \<noteq> []"
  shows "run_plan env goal m plan s =
     (case run_steps env goal (take (nat m) plan) s of
        (Inl e, s') \<Rightarrow> (Inl e, s')
      | (Inr oks, s') \<Rightarrow> (Inr (length plan < 2 * successes oks), s'))"
proof -
  obtain out s' where r: "run_steps env goal (take (nat m) plan) s = (out, s')"
    by (cases "run_steps env goal (take (nat m) plan) s")
  show ?thesis
  proof (cases out)
    case (Inl e)
    with r assms show ?thesis
      by (simp add: run_plan_def execute_plan_run_steps)
  next
    case (Inr oks)
    with r assms show ?thesis
      by (simp add: run_plan_def execute_plan_run_steps Let_def real_majority)
  qed
qed

lemma run_agent_planned:
  assumes ctx: "get_recent_context (py_repr env) goal 5 (data s) = Inr ctx"
    and plan: "plan_steps env goal ctx (world s) = (plan, w')"
  shows "run_agent_body env goal m s = run_plan env goal m plan (s\<lparr>world := w'\<rparr>)"
  using assms by (simp add: run_agent_body_def)

lemma run_agent_run_steps:
  assumes ctx: "get_recent_context (py_repr env) goal 5 (data s) = Inr ctx"
    and plan: "plan_steps env goal ctx (world s) = (plan, w')"
    and ne: "plan \<noteq> []"
  shows "run_agent env goal m s =
     (case run_steps env goal (take (nat m) plan) (s\<lparr>world := w'\<rparr>) of
        (Inl e, s') \<Rightarrow> (False, s')
      | (Inr oks, s') \<Rightarrow> (length plan < 2 * successes oks, s'))"
proof -
  have "run_agent_body env goal m s =
     (case run_steps env goal (take (nat m) plan) (s\<lparr>world := w'\<rparr>) of
        (Inl e, s') \<Rightarrow> (Inl e, s')
      | (Inr oks, s') \<Rightarrow> (Inr (length plan < 2 * successes oks), s'))"
    using run_agent_planned [OF ctx plan]
      run_plan_run_steps [OF plan_steps_log_plan [OF plan] ne] by simp
  then show ?thesis
    by (simp add: run_agent_def split: prod.splits sum.splits)
qed

text \<open>
  C2. When the planner returns a non-empty plan and every step of it is executed
  (the plan is no longer than \<open>max_iterations\<close> and no exception leaves the loop), with
  outcomes \<open>oks\<close>, there is one outcome per planned step and \<open>run_agent\<close> returns true
  if and only if the number of successful steps divided by the length of the plan is
  strictly greater than one half.
\<close>

theorem run_agent_success_rate:
  assumes ctx: "get_recent_context (py_repr env) goal 5 (data s) = Inr ctx"
    and plan: "plan_steps env goal ctx (world s) = (plan, w')"
    and ne: "plan \<noteq> []"
    and full: "int (length plan) \<le> max_iterations"
    and exec: "run_steps env goal plan (s\<lparr>world := w'\<rparr>) = (Inr oks, s')"
  shows "length oks = length plan \<and>
         run_agent env goal max_iterations s =
           (real (successes oks) / real (length plan) > 1 / 2, s') \<and>
         (fst (run_agent env goal max_iterations s) \<longleftrightarrow> length plan < 2 * successes oks)"
proof -
  from full have t: "take (nat max_iterations) plan = plan" by simp
  from ne have n: "0 < length plan" by simp
  have r: "run_agent env goal max_iterations s = (length plan < 2 * successes oks, s')"
    using run_agent_run_steps [OF ctx plan ne, of max_iterations] exec by (simp add: t)
  moreover have "length oks = length plan"
    using run_steps_Inr [OF exec] by simp
  ultimately show ?thesis unfolding rate_majority [OF n] by simp
qed

lemma scripted_context:
  "get_recent_context (py_repr (scripted_env steps)) ''demo'' 5 (data empty_state)
     = Inr ''No prior context available.''"
  by (simp add: get_recent_context_def retrieve_def dict_get_def empty_state_def)

lemma plan_2_of_4:
  "plan_steps (scripted_env [echo_step, fail_step, echo_step, fail_step]) ''demo''
     ''No prior context available.'' (world empty_state)
   = ([snd echo_step, snd fail_step, snd echo_step, snd fail_step], ())"
  by code_simp

lemma exec_2_of_4:
  "fst (run_steps (scripted_env [echo_step, fail_step, echo_step, fail_step]) ''demo''
     [snd echo_step, snd fail_step, snd echo_step, snd fail_step] (empty_state\<lparr>world := ()\<rparr>))
   = Inr [True, False, True, False]"
  by code_simp

lemma plan_3_of_4:
  "plan_steps (scripted_env [echo_step, fail_step, echo_step, echo_step]) ''demo''
     ''No prior context available.'' (world empty_state)
   = ([snd echo_step, snd fail_step, snd echo_step, snd echo_step], ())"
  by code_simp

lemma exec_3_of_4:
  "fst (run_steps (scripted_env [echo_step, fail_step, echo_step, echo_step]) ''demo''
     [snd echo_step, snd fail_step, snd echo_step, snd echo_step] (empty_state\<lparr>world := ()\<rparr>))
   = Inr [True, False, True, True]"
  by code_simp

text \<open>Four planned steps: two successes give false, three give true.\<close>

theorem run_agent_success_rate_witness:
  "fst (run_agent (scripted_env [echo_step, fail_step, echo_step, fail_step]) ''demo'' 10 empty_state)
     = False \<and>
   fst (run_agent (scripted_env [echo_step, fail_step, echo_step, echo_step]) ''demo'' 10 empty_state)
     = True"
proof -
  obtain s2 where e2:
    "run_steps (scripted_env [echo_step, fail_step, echo_step, fail_step]) ''demo''
       [snd echo_step, snd fail_step, snd echo_step, snd fail_step] (empty_state\<lparr>world := ()\<rparr>)
     = (Inr [True, False, True, False], s2)"
    using exec_2_of_4 by (metis prod.collapse)
  obtain s3 where e3:
    "run_steps (scripted_env [echo_step, fail_step, echo_step, echo_step]) ''demo''
       [snd echo_step, snd fail_step, snd echo_step, snd echo_step] (empty_state\<lparr>world := ()\<rparr>)
     = (Inr [True, False, True, True], s3)"
    using exec_3_of_4 by (metis prod.collapse)
  have a: "\<not> fst (run_agent (scripted_env [echo_step, fail_step, echo_step, fail_step])
                ''demo'' 10 empty_state)"
    using run_agent_success_rate [OF scripted_context plan_2_of_4 _ _ e2, of 10] by simp
  have b: "fst (run_agent (scripted_env [echo_step, fail_step, echo_step, echo_step])
                ''demo'' 10 empty_state)"
    using run_agent_success_rate [OF scripted_context plan_3_of_4 _ _ e3, of 10] by simp
  from a b show ?thesis by simp
qed

text \<open>
  C3. When the plan has more steps than \<open>max_iterations\<close>, the result and the final
  state of \<open>run_agent\<close> are those of executing the first \<open>max_iterations\<close> steps (none
  for a cap below one) and nothing else: if no exception leaves the loop there is one
  outcome per executed step, the registry was asked for exactly the actions of these
  steps, in order, the memory of the goal grew by exactly one entry for each of them,
  in order, and no other bucket changed. The steps after the cap are neither resolved
  nor stored. The result is true if and only if the successes among the executed steps
  are more than half the length of the whole plan, so reaching the cap does not by
  itself make the run fail.
\<close>

theorem run_agent_iteration_cap:
  assumes ctx: "get_recent_context (py_repr env) goal 5 (data s) = Inr ctx"
    and plan: "plan_steps env goal ctx (world s) = (plan, w')"
    and cap: "max_iterations < int (length plan)"
  shows "run_agent env goal max_iterations s =
           (case run_steps env goal (take (nat max_iterations) plan) (s\<lparr>world := w'\<rparr>) of
              (Inl e, s') \<Rightarrow> (False, s')
            | (Inr oks, s') \<Rightarrow> (length plan < 2 * successes oks, s')) \<and>
         (\<forall>oks s'.
            run_steps env goal (take (nat max_iterations) plan) (s\<lparr>world := w'\<rparr>) = (Inr oks, s') \<longrightarrow>
              length oks = nat max_iterations \<and>
              resolve_log s' = resolve_log s @ map step_action (take (nat max_iterations) plan) \<and>
              (\<forall>g. g \<noteq> goal \<longrightarrow> retrieve g (data s') = retrieve g (data s)) \<and>
              ((take (nat max_iterations) plan = [] \<and> data s' = data s) \<or>
               (\<exists>es new. retrieve goal (data s) = Inr (JArr es) \<and>
                          retrieve goal (data s') = Inr (JArr (es @ new)) \<and>
                          map (\<lambda>entry. subscript entry ''step'') new =
                            map Inr (take (nat max_iterations) plan))))"
proof (intro conjI allI impI)
  show "run_agent env goal max_iterations s =
           (case run_steps env goal (take (nat max_iterations) plan) (s\<lparr>world := w'\<rparr>) of
              (Inl e, s') \<Rightarrow> (False, s')
            | (Inr oks, s') \<Rightarrow> (length plan < 2 * successes oks, s'))"
  proof (cases "plan = []")
    case False
    then show ?thesis by (rule run_agent_run_steps [OF ctx plan])
  next
    case True
    then show ?thesis
      using run_agent_planned [OF ctx plan, of max_iterations]
      by (simp add: run_agent_def run_plan_def)
  qed
next
  fix oks s'
  assume r: "run_steps env goal (take (nat max_iterations) plan) (s\<lparr>world := w'\<rparr>) = (Inr oks, s')"
  note eff = run_steps_Inr [OF r]
  from cap have len: "length (take (nat max_iterations) plan) = nat max_iterations" by simp
  show "length oks = nat max_iterations" using eff len by simp
  show "resolve_log s' = resolve_log s @ map step_action (take (nat max_iterations) plan)"
    using eff by simp
  show "\<And>g. g \<noteq> goal \<Longrightarrow> retrieve g (data s') = retrieve g (data s)"
    using eff by simp
  show "(take (nat max_iterations) plan = [] \<and> data s' = data s) \<or>
        (\<exists>es new. retrieve goal (data s) = Inr (JArr es) \<and>
                   retrieve goal (data s') = Inr (JArr (es @ new)) \<and>
                   map (\<lambda>entry. subscript entry ''step'') new =
                     map Inr (take (nat max_iterations) plan))"
    using eff by simp
qed

lemma plan_3_steps:
  "plan_steps (scripted_env [echo_step, echo_step, fail_step]) ''demo''
     ''No prior context available.'' (world empty_state)
   = ([snd echo_step, snd echo_step, snd fail_step], ())"
  by code_simp

lemma exec_first_2_of_3:
  "run_steps (scripted_env [echo_step, echo_step, fail_step]) ''demo''
     (take (nat 2) [snd echo_step, snd echo_step, snd fail_step]) (empty_state\<lparr>world := ()\<rparr>)
   = (Inr [True, True],
      \<lparr>data = JObj [(''demo'',
                 JArr [mk_entry (snd echo_step) ''demo'' ''2024-01-01T00:00:00'',
                       mk_entry (snd echo_step) ''demo'' ''2024-01-01T00:00:00''])],
       world = (),
       resolve_log = [JStr ''echo'', JStr ''echo'']\<rparr>)"
  by code_simp

text \<open>
  Three planned steps and a cap of two: the two echo steps run, the third step leaves
  no trace in the log or in the memory, and the run succeeds with two of three.
\<close>

theorem run_agent_iteration_cap_witness:
  "run_agent (scripted_env [echo_step, echo_step, fail_step]) ''demo'' 2 empty_state
     = (True,
        \<lparr>data = JObj [(''demo'',
                   JArr [mk_entry (snd echo_step) ''demo'' ''2024-01-01T00:00:00'',
                         mk_entry (snd echo_step) ''demo'' ''2024-01-01T00:00:00''])],
         world = (),
         resolve_log = [JStr ''echo'', JStr ''echo'']\<rparr>)"
proof -
  have cap: "(2::int) < int (length [snd echo_step, snd echo_step, snd fail_step])" by simp
  show ?thesis
    using run_agent_iteration_cap [OF scripted_context plan_3_steps cap, THEN conjunct1]
    by (simp only: exec_first_2_of_3) (simp add: successes_def)
qed






text \<open>
  C8. If the planner returns the empty plan, \<open>run_agent\<close> returns false; the memory
  and the log of registry lookups are as before the run, so no step was executed, and
  only the model call has touched the outside world.
\<close>

theorem run_agent_empty_plan:
  assumes ctx: "get_recent_context (py_repr env) goal 5 (data s) = Inr ctx"
    and plan: "plan_steps env goal ctx (world s) = ([], w')"
  shows "run_agent env goal max_iterations s = (False, s\<lparr>world := w'\<rparr>) \<and>
         data (snd (run_agent env goal max_iterations s)) = data s \<and>
         resolve_log (snd (run_agent env goal max_iterations s)) = resolve_log s"
proof -
  have "run_agent env goal max_iterations s = (False, s\<lparr>world := w'\<rparr>)"
    using run_agent_planned [OF ctx plan, of max_iterations]
    by (simp add: run_agent_def run_plan_def)
  then show ?thesis by simp
qed

lemma plan_nothing:
  "plan_steps (scripted_env []) ''demo'' ''No prior context available.'' (world empty_state)
     = ([], ())"
  by code_simp

lemma plan_unregistered:
  "plan_steps (scripted_env [deploy_step]) ''demo'' ''No prior context available.''
     (world empty_state) = ([], ())"
  by code_simp

text \<open>
  The model answers with the empty list, or with one step whose action is not
  registered: the validated plan is empty and the run fails at once.
\<close>

theorem run_agent_empty_plan_witness:
  "run_agent (scripted_env []) ''demo'' 10 empty_state = (False, empty_state) \<and>
   run_agent (scripted_env [deploy_step]) ''demo'' 10 empty_state = (False, empty_state)"
  using run_agent_empty_plan [OF scripted_context plan_nothing, of 10]
    run_agent_empty_plan [OF scripted_context plan_unregistered, of 10]
  by (simp add: empty_state_def)

lemma execute_step_unresolved:
  assumes act: "map_of kv ''action'' = Some (JStr name)"
    and reg: "map_of (registry env) name = None"
    and mem: "retrieve goal (data s) = Inr (JArr es)"
  shows "\<exists>s1. execute_step env goal (JObj kv) s = (Inr False, s1) \<and>
           retrieve goal (data s1) =
             Inr (JArr (es @ [mk_entry (JObj kv)
                    (''Error: Skill '' @ quoted name @ '' not found in registry'')
                    (clock env (world s))]))"
proof -
  from store_retrieve [OF mem, of "clock env (world s)" "JObj kv"
      "''Error: Skill '' @ quoted name @ '' not found in registry''"]
  obtain d' where
    st: "store (clock env (world s)) goal (JObj kv)
           (''Error: Skill '' @ quoted name @ '' not found in registry'') (data s) = Inr d'"
    and rt: "retrieve goal d' = Inr (JArr (es @ [mk_entry (JObj kv)
                    (''Error: Skill '' @ quoted name @ '' not found in registry'')
                    (clock env (world s))]))"
    by blast
  let ?s1 = "s\<lparr>resolve_log := resolve_log s @ [JStr name], data := d'\<rparr>"
  have "execute_step env goal (JObj kv) s = (Inr False, ?s1)"
    using act reg st
    by (simp add: execute_step_def dict_get_def resolve_def handle_step_error_def Let_def)
  with rt show ?thesis by (intro exI [of _ ?s1]) simp
qed

text \<open>
  C10. For every name, \<open>resolve\<close> returns the capability registered under it or
  raises; it never returns \<open>None\<close>. So the branch \<open>skill_func is None\<close> of
  \<open>_execute_step\<close>, which would return false and store nothing, is never taken: whenever
  \<open>_execute_step\<close> returns false, the handler has stored an "Error: ..." entry for the
  step. For a name that is not registered this entry carries the text of the ValueError
  raised by \<open>resolve\<close>.
\<close>

theorem resolve_never_None:
  fixes env :: "'w env"
  shows "resolve (registry env) (py_repr env) name \<noteq> Inr PyNone \<and>
   ((\<exists>nm f. name = JStr nm \<and> map_of (registry env) nm = Some f \<and>
            resolve (registry env) (py_repr env) name = Inr (Callable f)) \<or>
    (\<exists>e. resolve (registry env) (py_repr env) name = Inl e)) \<and>
   (\<forall>goal step (st :: 'w state) st'.
      execute_step env goal step st = (Inr False, st') \<longrightarrow>
      (\<exists>e. store (clock env (world st')) goal step (''Error: '' @ exn_str e) (data st)
             = Inr (data st'))) \<and>
   (\<forall>goal kv nm es (st :: 'w state).
      map_of kv ''action'' = Some (JStr nm) \<and> map_of (registry env) nm = None \<and>
      retrieve goal (data st) = Inr (JArr es) \<longrightarrow>
      (\<exists>s1. execute_step env goal (JObj kv) st = (Inr False, s1) \<and>
         retrieve goal (data s1) =
           Inr (JArr (es @ [mk_entry (JObj kv)
                  (''Error: Skill '' @ quoted nm @ '' not found in registry'')
                  (clock env (world st))]))))"
proof (intro conjI allI impI)
  show "resolve (registry env) (py_repr env) name \<noteq> Inr PyNone"
    by (rule resolve_not_None)
  show "(\<exists>nm f. name = JStr nm \<and> map_of (registry env) nm = Some f \<and>
            resolve (registry env) (py_repr env) name = Inr (Callable f)) \<or>
        (\<exists>e. resolve (registry env) (py_repr env) name = Inl e)"
    by (cases name) (auto simp: resolve_def split: option.splits)
next
  fix goal step and st st' :: "'w state"
  assume "execute_step env goal step st = (Inr False, st')"
  from execute_step_Inr [OF this]
  show "\<exists>e. store (clock env (world st')) goal step (''Error: '' @ exn_str e) (data st)
             = Inr (data st')" by auto
next
  fix goal kv nm es and st :: "'w state"
  assume "map_of kv ''action'' = Some (JStr nm) \<and> map_of (registry env) nm = None \<and>
      retrieve goal (data st) = Inr (JArr es)"
  then show "\<exists>s1. execute_step env goal (JObj kv) st = (Inr False, s1) \<and>
         retrieve goal (data s1) =
           Inr (JArr (es @ [mk_entry (JObj kv)
                  (''Error: Skill '' @ quoted nm @ '' not found in registry'')
                  (clock env (world st))]))"
    using execute_step_unresolved [of kv nm env goal st es] by blast
qed

lemma deploy_unresolved:
  "map_of [(''action'', JStr ''deploy'')] ''action'' = Some (JStr ''deploy'') \<and>
   map_of (registry (scripted_env [])) ''deploy'' = None \<and>
   retrieve ''demo'' (data empty_state) = Inr (JArr [])"
  by (simp add: scripted_env_def retrieve_def dict_get_def empty_state_def)

text \<open>
  The registered name "echo" resolves to its skill; the step with the action "deploy"
  returns false with the stored text "Error: Skill 'deploy' not found in registry".
\<close>

theorem resolve_never_None_witness:
  "resolve (registry (scripted_env [])) (py_repr (scripted_env [])) (JStr ''echo'')
     = Inr (Callable echo_skill) \<and>
   (\<exists>s1. execute_step (scripted_env []) ''demo'' (JObj [(''action'', JStr ''deploy'')]) empty_state
            = (Inr False, s1) \<and>
          retrieve ''demo'' (data s1) =
            Inr (JArr [mk_entry (JObj [(''action'', JStr ''deploy'')])
                  (''Error: Skill '' @ quoted ''deploy'' @ '' not found in registry'')
                  ''2024-01-01T00:00:00'']))"
proof -
  note inst = resolve_never_None [of "scripted_env []" "JStr ''echo''"]
  have a: "resolve (registry (scripted_env [])) (py_repr (scripted_env [])) (JStr ''echo'')
     = Inr (Callable echo_skill)"
    using inst [THEN conjunct2, THEN conjunct1]
    by (auto simp: scripted_env_def resolve_def)
  from inst [THEN conjunct2, THEN conjunct2, THEN conjunct2, rule_format, OF deploy_unresolved]
  have "\<exists>s1. execute_step (scripted_env []) ''demo'' (JObj [(''action'', JStr ''deploy'')]) empty_state
            = (Inr False, s1) \<and>
          retrieve ''demo'' (data s1) =
            Inr (JArr [mk_entry (JObj [(''action'', JStr ''deploy'')])
                  (''Error: Skill '' @ quoted ''deploy'' @ '' not found in registry'')
                  ''2024-01-01T00:00:00''])"
    by (simp add: scripted_env_def empty_state_def)
  with a show ?thesis by blast
qed

section \<open>Runs on a well-formed memory\<close>

text \<open>
  When the bucket of the goal is a sequence, every step of a planner's plan returns and
  leaves the bucket a sequence: no exception leaves \<open>_execute_step\<close> or the loop, and
  the handler of \<open>run_agent\<close> is reached only through a malformed memory document.
\<close>

lemma handle_step_error_total:
  assumes "retrieve goal (data s) = Inr (JArr es)"
  shows "\<exists>s'. handle_step_error env goal step e s = (Inr False, s') \<and>
              (\<exists>es'. retrieve goal (data s') = Inr (JArr es'))"
proof -
  from store_retrieve [OF assms, of "clock env (world s)" step "''Error: '' @ exn_str e"]
  obtain d' where "store (clock env (world s)) goal step (''Error: '' @ exn_str e) (data s) = Inr d'"
    and "\<exists>es'. retrieve goal d' = Inr (JArr es')" by blast
  then show ?thesis by (simp add: handle_step_error_def Let_def)
qed

lemma execute_step_total:
  assumes mem: "retrieve goal (data s) = Inr (JArr es)"
  shows "\<exists>ok s'. execute_step env goal (JObj kv) s = (Inr ok, s') \<and>
                 (\<exists>es'. retrieve goal (data s') = Inr (JArr es'))"
proof -
  let ?a = "dict_get kv ''action'' JNull"
  let ?s1 = "s\<lparr>resolve_log := resolve_log s @ [?a]\<rparr>"
  have m1: "\<And>w. retrieve goal (data (?s1\<lparr>world := w\<rparr>)) = Inr (JArr es)"
    and m0: "retrieve goal (data ?s1) = Inr (JArr es)"
    using mem by simp_all
  show ?thesis
  proof (cases "resolve (registry env) (py_repr env) ?a")
    case (Inl e)
    with handle_step_error_total [OF m0, of env "JObj kv" e] show ?thesis
      by (auto simp: execute_step_def Let_def)
  next
    case (Inr r)
    show ?thesis
    proof (cases r)
      case PyNone
      with Inr mem show ?thesis by (auto simp: execute_step_def Let_def)
    next
      case (Callable f)
      obtain out w' where f: "f (dict_get kv ''params'' (JObj [])) (world s) = (out, w')"
        by (cases "f (dict_get kv ''params'' (JObj [])) (world s)")
      show ?thesis
      proof (cases out)
        case (Inl e)
        with handle_step_error_total [OF m1, of env "JObj kv" e w'] Inr Callable f show ?thesis
          by (auto simp: execute_step_def Let_def)
      next
        case res: (Inr result)
        from store_retrieve [OF mem, of "clock env w'" "JObj kv" result]
        obtain d' where "store (clock env w') goal (JObj kv) result (data s) = Inr d'"
          and "\<exists>es'. retrieve goal d' = Inr (JArr es')" by blast
        with Inr Callable f res show ?thesis
          by (auto simp: execute_step_def Let_def)
      qed
    qed
  qed
qed

lemma subscript_Inr_JObj:
  assumes "subscript step key = Inr a"
  shows "\<exists>kv. step = JObj kv"
  using assms by (cases step) (simp_all add: subscript_def)

lemma run_steps_total:
  assumes "\<forall>step \<in> set steps. \<exists>a. subscript step ''action'' = Inr a"
    and "retrieve goal (data s) = Inr (JArr es)"
  shows "\<exists>oks s'. run_steps env goal steps s = (Inr oks, s')"
  using assms
proof (induction steps arbitrary: s es)
  case Nil
  show ?case by simp
next
  case (Cons step rest)
  from Cons.prems(1) obtain a where a: "subscript step ''action'' = Inr a" by auto
  from subscript_Inr_JObj [OF a] obtain kv where kv: "step = JObj kv" ..
  from execute_step_total [OF Cons.prems(2), of env kv] kv obtain ok s1 es1 where
    e: "execute_step env goal step s = (Inr ok, s1)"
    and m: "retrieve goal (data s1) = Inr (JArr es1)" by blast
  from Cons.prems(1) have "\<forall>step \<in> set rest. \<exists>a. subscript step ''action'' = Inr a" by simp
  from Cons.IH [OF this m] obtain oks s' where "run_steps env goal rest s1 = (Inr oks, s')"
    by blast
  with a e show ?case by simp
qed

lemma run_agent_body_total:
  assumes ctx: "get_recent_context (py_repr env) goal 5 (data s) = Inr ctx"
    and mem: "retrieve goal (data s) = Inr (JArr es)"
  shows "\<exists>b s'. run_agent_body env goal m s = (Inr b, s')"
proof -
  obtain plan w' where plan: "plan_steps env goal ctx (world s) = (plan, w')"
    by (cases "plan_steps env goal ctx (world s)")
  show ?thesis
  proof (cases "plan = []")
    case True
    with run_agent_planned [OF ctx plan, of m] show ?thesis by (auto simp: run_plan_def)
  next
    case False
    have "\<forall>step \<in> set (take (nat m) plan). \<exists>a. subscript step ''action'' = Inr a"
      using plan_steps_actions [OF plan] by (auto dest: in_set_takeD)
    moreover have "retrieve goal (data (s\<lparr>world := w'\<rparr>)) = Inr (JArr es)"
      using mem by simp
    ultimately obtain oks s' where
      "run_steps env goal (take (nat m) plan) (s\<lparr>world := w'\<rparr>) = (Inr oks, s')"
      using run_steps_total by blast
    with run_agent_planned [OF ctx plan, of m]
      run_plan_run_steps [OF plan_steps_log_plan [OF plan] False, of env goal m "s\<lparr>world := w'\<rparr>"]
    show ?thesis by simp
  qed
qed

text \<open>
  The end-to-end scenario: the goal "demo", a plan of one echo step. The run returns
  true and the memory of "demo" holds one entry with the result "demo".
\<close>

lemma end_to_end_demo:
  "run_agent (scripted_env [echo_step]) ''demo'' 10 empty_state =
     (True,
      \<lparr>data = JObj [(''demo'', JArr [mk_entry (snd echo_step) ''demo'' ''2024-01-01T00:00:00''])],
       world = (),
       resolve_log = [JStr ''echo'']\<rparr>)"
  by code_simp

end
